theory Spec2Isabelle
  imports Main "HOL-Library.Word"
begin

section \<open>Data model of the optimizer (Optimizer.h, Optimizer.cpp lines 19-38)\<close>

text \<open>
  The C++ \<open>int\<close> is a 32-bit two's complement value: a \<open>32 word\<close>, compared with the
  signed orders \<open><s\<close> and \<open>\<le>s\<close> and read with \<open>sint\<close>. Its arithmetic wraps around in
  the model (the target platform's behaviour; in C++ a signed overflow is undefined).
  \<open>std::uint64_t\<close> and \<open>size_t\<close> are \<open>64 word\<close> with the unsigned order and wrap-around.
  \<open>ActorUniqueID\<close> wraps a 64-bit raw id; only its equality is used.
\<close>

type_synonym cint = "32 word"
type_synonym u64 = "64 word"
type_synonym ActorUniqueID = "64 word"

record Config =
  version :: cint
  enabled :: bool
  debug :: bool
  targetTickMs :: cint
  maxPerTickStep :: cint
  cooldownTicksStep :: cint
  cleanupIntervalTicks :: cint
  maxExpiredAge :: cint
  initialMapReserve :: cint

text \<open>The member initialisers of \<open>struct Config\<close>.\<close>

definition default_Config :: Config where
  "default_Config = \<lparr> version = 1, enabled = True, debug = False,
     targetTickMs = 50, maxPerTickStep = 2, cooldownTicksStep = 1,
     cleanupIntervalTicks = 100, maxExpiredAge = 600, initialMapReserve = 500 \<rparr>"

text \<open>
  \<open>std::unordered_map<ActorUniqueID, std::uint64_t>\<close>: an association list whose keys
  are pairwise distinct (\<open>store_ok\<close>). The list order stands for the unspecified iteration
  order of the container; \<open>map_of\<close> is the lookup.
\<close>

type_synonym store = "(ActorUniqueID \<times> u64) list"

definition store_ok :: "store \<Rightarrow> bool" where
  "store_ok m = distinct (map fst m)"

text \<open>
  \<open>emplace(k, v)\<close>: the store, the value the returned iterator points at, and whether the
  pair was inserted. An existing entry is left as it is.
\<close>

fun emplace :: "store \<Rightarrow> ActorUniqueID \<Rightarrow> u64 \<Rightarrow> store \<times> u64 \<times> bool" where
  "emplace [] k v = ([(k, v)], v, True)"
| "emplace ((k', t) # m) k v =
     (if k' = k then ((k', t) # m, t, False)
      else (case emplace m k v of (m', t', ins) \<Rightarrow> ((k', t) # m', t', ins)))"

text \<open>\<open>it->second = v\<close> for the iterator of key \<open>k\<close>.\<close>

fun assign :: "store \<Rightarrow> ActorUniqueID \<Rightarrow> u64 \<Rightarrow> store" where
  "assign [] k v = []"
| "assign ((k', t) # m) k v = (if k' = k then (k', v) # m else (k', t) # assign m k v)"

text \<open>\<open>erase(k)\<close>: the store and the number of elements removed.\<close>

definition erase :: "store \<Rightarrow> ActorUniqueID \<Rightarrow> store \<times> nat" where
  "erase m k = (filter (\<lambda>p. fst p \<noteq> k) m, length (filter (\<lambda>p. fst p = k) m))"

text \<open>The file-scope variables of Optimizer.cpp.\<close>

record state =
  config :: Config
  debugTaskRunning :: bool
  lastItemTick :: store
  processedThisTick :: cint
  lastTickId :: u64
  cleanupCounter :: cint
  dynMaxPerTick :: cint
  dynCooldownTicks :: cint
  totalProcessed :: u64
  totalCooldownSkipped :: u64
  totalThrottleSkipped :: u64
  totalDespawnCleaned :: u64
  totalExpiredCleaned :: u64

definition init_state :: state where
  "init_state = \<lparr> config = default_Config, debugTaskRunning = False, lastItemTick = [],
     processedThisTick = 0, lastTickId = 0, cleanupCounter = 0,
     dynMaxPerTick = 20, dynCooldownTicks = 2,
     totalProcessed = 0, totalCooldownSkipped = 0, totalThrottleSkipped = 0,
     totalDespawnCleaned = 0, totalExpiredCleaned = 0 \<rparr>"

section \<open>Configuration loading and lifecycle (lines 49-142)\<close>

text \<open>
  \<open>loadConfig\<close>: \<open>ll::config::loadConfig(config, path)\<close> belongs to the host library. Its
  outcome is a parameter: \<open>loaded\<close> is the flag it returns and \<open>c\<close> the value it leaves in
  \<open>config\<close>. The six guards follow in the order of the source.
\<close>

definition loadConfig :: "bool \<Rightarrow> Config \<Rightarrow> bool \<times> Config" where
  "loadConfig loaded c =
     (let c1 = (if cleanupIntervalTicks c <s 1 then c\<lparr>cleanupIntervalTicks := 100\<rparr> else c);
          c2 = (if maxExpiredAge c1 <s 1 then c1\<lparr>maxExpiredAge := 600\<rparr> else c1);
          c3 = (if initialMapReserve c2 = 0 then c2\<lparr>initialMapReserve := 500\<rparr> else c2);
          c4 = (if maxPerTickStep c3 <s 1 then c3\<lparr>maxPerTickStep := 1\<rparr> else c3);
          c5 = (if cooldownTicksStep c4 <s 1 then c4\<lparr>cooldownTicksStep := 1\<rparr> else c4);
          c6 = (if targetTickMs c5 <s 1 then c5\<lparr>targetTickMs := 50\<rparr> else c5)
      in (loaded, c6))"

text \<open>
  \<open>Optimizer::load\<close>: after \<open>loadConfig\<close> it calls
  \<open>lastItemTick.reserve(config.initialMapReserve)\<close>, where the \<open>int\<close> is converted to
  \<open>size_t\<close> by sign extension. \<open>reserve\<close> leaves the contents of the store alone, but it
  throws (\<open>std::length_error\<close> or \<open>std::bad_alloc\<close>) when the standard library cannot provide
  that many buckets; then \<open>load\<close> does not return. For which sizes that happens is a matter
  of the library and the machine: the parameter \<open>reserve_throws\<close>. Otherwise \<open>load\<close> returns
  \<open>true\<close> whatever \<open>loadConfig\<close> returned. \<open>saveConfig\<close>, the logger and the creation of the
  configuration directory do not touch the variables of the model.
\<close>

datatype exn = ReserveFailed

definition load :: "(u64 \<Rightarrow> bool) \<Rightarrow> bool \<Rightarrow> Config \<Rightarrow> state \<Rightarrow> exn + bool \<times> state" where
  "load reserve_throws loaded c s =
     (let s1 = s\<lparr>config := snd (loadConfig loaded c)\<rparr>
      in if reserve_throws (scast (initialMapReserve (config s1))) then Inl ReserveFailed
         else Inr (True, s1))"

definition resetStats :: "state \<Rightarrow> state" where
  "resetStats s = s\<lparr>totalProcessed := 0, totalCooldownSkipped := 0, totalThrottleSkipped := 0,
     totalDespawnCleaned := 0, totalExpiredCleaned := 0\<rparr>"

definition startDebugTask :: "state \<Rightarrow> state" where
  "startDebugTask s = (if debugTaskRunning s then s else s\<lparr>debugTaskRunning := True\<rparr>)"

definition stopDebugTask :: "state \<Rightarrow> state" where
  "stopDebugTask s = s\<lparr>debugTaskRunning := False\<rparr>"

definition enable :: "state \<Rightarrow> state" where
  "enable s =
     (let s1 = s\<lparr>dynMaxPerTick := maxPerTickStep (config s) * 10,
                 dynCooldownTicks := cooldownTicksStep (config s) * 2\<rparr>
      in if debug (config s1) then startDebugTask s1 else s1)"

definition disable :: "state \<Rightarrow> state" where
  "disable s =
     resetStats ((stopDebugTask s)\<lparr>lastItemTick := [], processedThisTick := 0,
       lastTickId := 0, cleanupCounter := 0\<rparr>)"

section \<open>The removal hooks (lines 232-260)\<close>

text \<open>\<open>ActorDespawnHook\<close> and \<open>ActorRemoveHook\<close> have the same body.\<close>

definition ActorDespawnHook :: "ActorUniqueID \<Rightarrow> state \<Rightarrow> state" where
  "ActorDespawnHook uid s =
     (if enabled (config s)
      then (case erase (lastItemTick s) uid of
        (m, n) \<Rightarrow>
          if n > 0 then s\<lparr>lastItemTick := m, totalDespawnCleaned := totalDespawnCleaned s + 1\<rparr>
          else s\<lparr>lastItemTick := m\<rparr>)
      else s)"

definition ActorRemoveHook :: "ActorUniqueID \<Rightarrow> state \<Rightarrow> state" where
  "ActorRemoveHook uid s = ActorDespawnHook uid s"

section \<open>The item tick hook (lines 147-201)\<close>

text \<open>
  The loop of lines 169-178 over the store, with the running value of
  \<open>totalExpiredCleaned\<close>: an entry is erased when \<open>currentTick - it->second\<close> (unsigned,
  wrapping) exceeds the threshold, and the counter is incremented for each erased entry.
\<close>

fun sweep :: "u64 \<Rightarrow> u64 \<Rightarrow> store \<Rightarrow> u64 \<Rightarrow> store \<times> u64" where
  "sweep currentTick maxAge [] n = ([], n)"
| "sweep currentTick maxAge ((k, t) # m) n =
     (if currentTick - t > maxAge then sweep currentTick maxAge m (n + 1)
      else (case sweep currentTick maxAge m n of (m', n') \<Rightarrow> ((k, t) # m', n')))"

text \<open>
  Lines 164-179, the body of \<open>if (currentTick != lastTickId)\<close>. The threshold is
  \<open>static_cast<std::uint64_t>(config.maxExpiredAge)\<close>, a sign extension.
\<close>

definition new_tick :: "u64 \<Rightarrow> state \<Rightarrow> state" where
  "new_tick currentTick s =
     (let s1 = s\<lparr>lastTickId := currentTick, processedThisTick := 0,
                 cleanupCounter := cleanupCounter s + 1\<rparr>
      in if cleanupIntervalTicks (config s1) \<le>s cleanupCounter s1
         then (case sweep currentTick (scast (maxExpiredAge (config s1)))
                      (lastItemTick s1) (totalExpiredCleaned s1) of
                 (m', n') \<Rightarrow> s1\<lparr>cleanupCounter := 0, lastItemTick := m',
                                 totalExpiredCleaned := n'\<rparr>)
         else s1)"

definition frame_boundary :: "u64 \<Rightarrow> state \<Rightarrow> state" where
  "frame_boundary currentTick s =
     (if currentTick \<noteq> lastTickId s then new_tick currentTick s else s)"

text \<open>
  What the hook does with the actor's own tick function \<open>origin\<close>: \<open>PassThrough\<close> is line
  158 (the hook is inactive and returns \<open>origin(region)\<close>), \<open>Allow\<close> is lines 196-200
  (\<open>origin(region)\<close> runs and its result is returned), the two denials return \<open>true\<close>
  without running \<open>origin\<close>.
\<close>

datatype decision = PassThrough | Allow | DenyThrottle | DenyCooldown

text \<open>
  \<open>origin(region)\<close> is the host's tick of the actor. The optimizer's variables are static to
  Optimizer.cpp, so the host's tick reaches them only through the hooks of that file, and
  the hooks it can run into are the removal hooks: an actor (the ticking one or another)
  that the host despawns or removes while the tick runs. \<open>removed\<close> lists these actors in
  the order of their removal; the rest of what \<open>origin\<close> does is outside the model.
\<close>

definition origin_removals :: "ActorUniqueID list \<Rightarrow> state \<Rightarrow> state" where
  "origin_removals removed s = foldl (\<lambda>s' u. ActorRemoveHook u s') s removed"

text \<open>
  Lines 196-200. The write of line 198 goes through the iterator that \<open>emplace\<close> returned
  at line 187, held across \<open>origin(region)\<close>. When the entry was erased in between, the
  iterator is invalid and the write is undefined in C++; it does not reach the container,
  and \<open>assign\<close> then leaves the store as it is.
\<close>

definition allowed :: "ActorUniqueID \<Rightarrow> u64 \<Rightarrow> ActorUniqueID list \<Rightarrow> state \<Rightarrow> state" where
  "allowed uid currentTick removed s2 =
     (let s3 = s2\<lparr>processedThisTick := processedThisTick s2 + 1\<rparr>;
          s4 = origin_removals removed s3;
          s5 = s4\<lparr>lastItemTick := assign (lastItemTick s4) uid currentTick\<rparr>
      in s5\<lparr>totalProcessed := totalProcessed s5 + 1\<rparr>)"

text \<open>
  \<open>isItem\<close> is \<open>this->isType(ActorType::Item)\<close>, \<open>uid\<close> is \<open>this->getOrCreateUniqueID()\<close>,
  \<open>currentTick\<close> is the level's current server tick id, \<open>removed\<close> is what \<open>origin\<close> removes
  if it runs.
\<close>

definition ItemActorTickHook ::
    "bool \<Rightarrow> ActorUniqueID \<Rightarrow> u64 \<Rightarrow> ActorUniqueID list \<Rightarrow> state \<Rightarrow> decision \<times> state" where
  "ItemActorTickHook isItem uid currentTick removed s =
     (if \<not> enabled (config s) \<or> \<not> isItem then (PassThrough, origin_removals removed s)
      else
        let s1 = frame_boundary currentTick s in
        if dynMaxPerTick s1 \<le>s processedThisTick s1
        then (DenyThrottle, s1\<lparr>totalThrottleSkipped := totalThrottleSkipped s1 + 1\<rparr>)
        else (case emplace (lastItemTick s1) uid 0 of
          (m, second, inserted) \<Rightarrow>
            let s2 = s1\<lparr>lastItemTick := m\<rparr> in
            if \<not> inserted \<and> currentTick - second < scast (dynCooldownTicks s2)
            then (DenyCooldown, s2\<lparr>totalCooldownSkipped := totalCooldownSkipped s2 + 1\<rparr>)
            else (Allow, allowed uid currentTick removed s2)))"

section \<open>The level tick hook (lines 204-229)\<close>

text \<open>
  \<open>elapsed\<close> is the measured duration in milliseconds, a signed 64-bit count;
  \<open>config.targetTickMs\<close> is converted to that type for the comparison.
  \<open>std::max(a, b)\<close> is \<open>a < b ? b : a\<close> and \<open>std::min(a, b)\<close> is \<open>b < a ? b : a\<close>.
\<close>

definition std_max :: "cint \<Rightarrow> cint \<Rightarrow> cint" where
  "std_max a b = (if a <s b then b else a)"

definition std_min :: "cint \<Rightarrow> cint \<Rightarrow> cint" where
  "std_min a b = (if b <s a then b else a)"

definition LevelTickHook :: "64 word \<Rightarrow> state \<Rightarrow> state" where
  "LevelTickHook elapsed s =
     (if \<not> enabled (config s) then s
      else if scast (targetTickMs (config s)) <s elapsed
      then s\<lparr>dynMaxPerTick := std_max 8 (dynMaxPerTick s - maxPerTickStep (config s)),
             dynCooldownTicks := std_min 10 (dynCooldownTicks s + cooldownTicksStep (config s))\<rparr>
      else s\<lparr>dynMaxPerTick := std_min 200 (dynMaxPerTick s + maxPerTickStep (config s)),
             dynCooldownTicks := std_max 1 (dynCooldownTicks s - cooldownTicksStep (config s))\<rparr>)"

section \<open>Runs of the optimizer\<close>

text \<open>
  The host loads the mod once (\<open>Optimizer::load\<close>, on the variables as initialised) and then
  drives it through its entry points, one call at a time on the server thread.
  \<open>loaded_state\<close> is what the variables hold once \<open>loadConfig\<close> has run inside \<open>load\<close>.
\<close>

definition loaded_state :: "bool \<Rightarrow> Config \<Rightarrow> state" where
  "loaded_state loaded c = init_state\<lparr>config := snd (loadConfig loaded c)\<rparr>"

datatype event =
    Enable
  | Disable
  | ItemTick bool ActorUniqueID u64 "ActorUniqueID list"
  | LevelTick "64 word"
  | Despawn ActorUniqueID
  | Remove ActorUniqueID

fun step :: "state \<Rightarrow> event \<Rightarrow> state" where
  "step s Enable = enable s"
| "step s Disable = disable s"
| "step s (ItemTick isItem uid currentTick removed) =
     snd (ItemActorTickHook isItem uid currentTick removed s)"
| "step s (LevelTick elapsed) = LevelTickHook elapsed s"
| "step s (Despawn uid) = ActorDespawnHook uid s"
| "step s (Remove uid) = ActorRemoveHook uid s"

definition run :: "state \<Rightarrow> event list \<Rightarrow> state" where
  "run s evs = foldl step s evs"

text \<open>
  A frame of gate calls: the hook called for item actors with the same \<open>currentTick\<close>, one
  call for each pair of the list (the actor id, and what its \<open>origin\<close> removes if it runs),
  giving the decisions in call order and the final state.
\<close>

type_synonym call = "ActorUniqueID \<times> ActorUniqueID list"

fun frame :: "u64 \<Rightarrow> call list \<Rightarrow> state \<Rightarrow> decision list \<times> state" where
  "frame currentTick [] s = ([], s)"
| "frame currentTick ((uid, removed) # calls) s =
     (case ItemActorTickHook True uid currentTick removed s of
        (d, s') \<Rightarrow> (case frame currentTick calls s' of (ds, s'') \<Rightarrow> (d # ds, s'')))"

section \<open>Auxiliary notions for the statements\<close>

text \<open>
  A state inside the frame \<open>t\<close>: the hook is active, the frame's tick id has been seen, and
  the in-frame counter has not gone negative.
\<close>

definition in_frame :: "u64 \<Rightarrow> state \<Rightarrow> bool" where
  "in_frame t s \<longleftrightarrow> enabled (config s) \<and> lastTickId s = t \<and> 0 \<le> sint (processedThisTick s)"

text \<open>A loaded and enabled optimizer whose step of 1 gives the quota 10 and the cooldown 2.\<close>

definition quota10 :: state where
  "quota10 = enable (loaded_state True (default_Config\<lparr>maxPerTickStep := 1\<rparr>))"

text \<open>Whether a mathematical integer is a value of the C++ \<open>int\<close>.\<close>

definition fits_int :: "int \<Rightarrow> bool" where
  "fits_int k \<longleftrightarrow> - (2 ^ 31) \<le> k \<and> k < 2 ^ 31"

text \<open>
  A state one tick short of the sweep cadence, holding entries of age 601, 600 and 0 as
  seen from tick 601.
\<close>

definition sweep_due :: state where
  "sweep_due = init_state\<lparr>lastItemTick := [(1, 0), (2, 1), (3, 601)], cleanupCounter := 99\<rparr>"

text \<open>
  The configured steps for which \<open>enable\<close> starts inside the controller's ranges, and the
  ranges themselves.
\<close>

definition steps_ok :: "Config \<Rightarrow> bool" where
  "steps_ok c \<longleftrightarrow> 1 \<le> sint (maxPerTickStep c) \<and> sint (maxPerTickStep c) \<le> 20
     \<and> 1 \<le> sint (cooldownTicksStep c) \<and> sint (cooldownTicksStep c) \<le> 5"

definition dyn_ok :: "state \<Rightarrow> bool" where
  "dyn_ok s \<longleftrightarrow> 8 \<le> sint (dynMaxPerTick s) \<and> sint (dynMaxPerTick s) \<le> 200
     \<and> 1 \<le> sint (dynCooldownTicks s) \<and> sint (dynCooldownTicks s) \<le> 10"

text \<open>
  Two states reached from \<open>quota10\<close>: actor 1 allowed at tick 5, and after that the ten
  actors 2 to 11 allowed at tick 6, which uses up the quota of that frame.
\<close>

definition seen_at_5 :: state where
  "seen_at_5 = snd (frame 5 [(1, [])] quota10)"

definition quota_full :: state where
  "quota_full = snd (frame 6 [(2, []), (3, []), (4, []), (5, []), (6, []), (7, []), (8, []),
                              (9, []), (10, []), (11, [])] seen_at_5)"

text \<open>The ten calls of a frame that uses up the quota of \<open>quota10\<close>; actor 4's tick removes actor 2.\<close>

definition ten_calls :: "call list" where
  "ten_calls = [(1, []), (2, []), (3, []), (4, [2]), (5, []), (6, []), (7, []), (8, []),
                (9, []), (10, [])]"

section \<open>Machine arithmetic and the store\<close>

lemma sint_succ:
  fixes p d :: cint
  assumes "p <s d"
  shows "sint (p + 1) = sint p + 1"
proof -
  have lt: "sint p < sint d" using assms by (simp add: word_sless_alt)
  have ub: "sint d < 2 ^ 31" using sint_lt [of d] by simp
  have lb: "- (2 ^ 31) \<le> sint p" using sint_ge [of p] by simp
  have "sint (p + 1) = signed_take_bit 31 (sint p + 1)"
    by (simp add: sint_word_ariths)
  also have "\<dots> = sint p + 1"
    using lt ub lb by (intro signed_take_bit_int_eq_self) auto
  finally show ?thesis .
qed

lemma sint_add_fits:
  fixes a b :: cint
  shows "fits_int (sint a + sint b) \<Longrightarrow> sint (a + b) = sint a + sint b"
  by (simp add: fits_int_def sint_word_ariths signed_take_bit_int_eq_self)

lemma sint_sub_fits:
  fixes a b :: cint
  shows "fits_int (sint a - sint b) \<Longrightarrow> sint (a - b) = sint a - sint b"
  by (simp add: fits_int_def sint_word_ariths signed_take_bit_int_eq_self)

lemma sint_mult_fits:
  fixes a b :: cint
  shows "fits_int (sint a * sint b) \<Longrightarrow> sint (a * b) = sint a * sint b"
  by (simp add: fits_int_def sint_word_ariths signed_take_bit_int_eq_self)

lemma scast_sless:
  fixes a :: cint and e :: "64 word"
  shows "(scast a <s e) = (sint a < sint e)"
  by (simp add: word_sless_alt sint_up_scast is_up)

lemma std_max_sint: "sint (std_max a b) = max (sint a) (sint b)"
  by (simp add: std_max_def word_sless_alt max_def)

lemma std_min_sint: "sint (std_min a b) = min (sint a) (sint b)"
  by (simp add: std_min_def word_sless_alt min_def)

text \<open>The store operations, seen through the lookup.\<close>

lemma emplace_eq:
  "emplace m k v = (case map_of m k of None \<Rightarrow> (m @ [(k, v)], v, True) | Some t \<Rightarrow> (m, t, False))"
  by (induction m) (auto split: option.splits)

lemma map_of_assign:
  "map_of (assign m k v) = (case map_of m k of None \<Rightarrow> map_of m | Some t \<Rightarrow> (map_of m)(k \<mapsto> v))"
  by (induction m) (auto split: option.splits)

lemma keys_assign: "map fst (assign m k v) = map fst m"
  by (induction m) auto

lemma map_add_fresh:
  "f k = None \<Longrightarrow> [k \<mapsto> v] ++ f = f(k \<mapsto> v)"
  by (rule ext) (auto simp: map_add_def split: option.splits)

lemma map_of_filter_absent: "map_of m k = None \<Longrightarrow> map_of (filter P m) k = None"
  by (induction m) (auto split: if_splits)

lemma map_of_filter_distinct:
  "distinct (map fst m) \<Longrightarrow> map_of m k = Some v \<Longrightarrow>
     map_of (filter P m) k = (if P (k, v) then Some v else None)"
proof (induction m)
  case Nil
  then show ?case by simp
next
  case (Cons p m)
  show ?case
  proof (cases "fst p = k")
    case True
    then have v: "snd p = v" using Cons.prems(2) by (cases p) simp
    have "map_of m k = None" using Cons.prems(1) True
      by (cases p) (auto simp: map_of_eq_None_iff)
    then have "map_of (filter P m) k = None" by (rule map_of_filter_absent)
    then show ?thesis using True v by (cases p) auto
  next
    case False
    then show ?thesis using Cons by (cases p) auto
  qed
qed

lemma erase_absent: "map_of (fst (erase m k)) k = None"
  by (induction m) (auto simp: erase_def)

lemma sweep_filter:
  "sweep c a m n = (filter (\<lambda>p. c - snd p \<le> a) m,
                    n + of_nat (length (filter (\<lambda>p. a < c - snd p) m)))"
  by (induction m arbitrary: n) (auto simp: not_less add.assoc add.commute)

lemma length_filter_compl:
  "length (filter (\<lambda>p. \<not> P p) m) = length m - length (filter P m)"
  using sum_length_filter_compl [of P m] by simp

section \<open>Removals while the host's tick runs\<close>

lemma despawn_keeps:
  "config (ActorDespawnHook u s) = config s
   \<and> dynMaxPerTick (ActorDespawnHook u s) = dynMaxPerTick s
   \<and> dynCooldownTicks (ActorDespawnHook u s) = dynCooldownTicks s
   \<and> processedThisTick (ActorDespawnHook u s) = processedThisTick s
   \<and> lastTickId (ActorDespawnHook u s) = lastTickId s
   \<and> cleanupCounter (ActorDespawnHook u s) = cleanupCounter s
   \<and> totalProcessed (ActorDespawnHook u s) = totalProcessed s"
  by (simp add: ActorDespawnHook_def split: prod.splits)

lemma despawn_store:
  "lastItemTick (ActorDespawnHook u s)
     = (if enabled (config s) then filter (\<lambda>p. fst p \<noteq> u) (lastItemTick s) else lastItemTick s)"
  by (simp add: ActorDespawnHook_def erase_def)

lemma despawn_absent:
  "enabled (config s) \<Longrightarrow> map_of (lastItemTick (ActorDespawnHook uid s)) uid = None"
  using erase_absent [of "lastItemTick s" uid] by (simp add: despawn_store erase_def)

lemma remove_keeps:
  "config (ActorRemoveHook u s) = config s
   \<and> dynMaxPerTick (ActorRemoveHook u s) = dynMaxPerTick s
   \<and> dynCooldownTicks (ActorRemoveHook u s) = dynCooldownTicks s
   \<and> processedThisTick (ActorRemoveHook u s) = processedThisTick s
   \<and> lastTickId (ActorRemoveHook u s) = lastTickId s
   \<and> cleanupCounter (ActorRemoveHook u s) = cleanupCounter s
   \<and> totalProcessed (ActorRemoveHook u s) = totalProcessed s"
  by (simp add: ActorRemoveHook_def despawn_keeps)

lemma remove_store:
  "lastItemTick (ActorRemoveHook u s)
     = (if enabled (config s) then filter (\<lambda>p. fst p \<noteq> u) (lastItemTick s) else lastItemTick s)"
  by (simp add: ActorRemoveHook_def despawn_store)

lemma origin_removals_Cons:
  "origin_removals (u # rs) s = origin_removals rs (ActorRemoveHook u s)"
  by (simp add: origin_removals_def)

lemma origin_removals_keeps:
  "config (origin_removals rs s) = config s
   \<and> dynMaxPerTick (origin_removals rs s) = dynMaxPerTick s
   \<and> dynCooldownTicks (origin_removals rs s) = dynCooldownTicks s
   \<and> processedThisTick (origin_removals rs s) = processedThisTick s
   \<and> lastTickId (origin_removals rs s) = lastTickId s
   \<and> cleanupCounter (origin_removals rs s) = cleanupCounter s
   \<and> totalProcessed (origin_removals rs s) = totalProcessed s"
proof (induction rs arbitrary: s)
  case Nil
  show ?case by (simp add: origin_removals_def)
next
  case (Cons u rs)
  show ?case by (simp add: origin_removals_Cons Cons.IH remove_keeps)
qed

lemma origin_removals_store:
  "lastItemTick (origin_removals rs s)
     = (if enabled (config s) then filter (\<lambda>p. fst p \<notin> set rs) (lastItemTick s)
        else lastItemTick s)"
proof (induction rs arbitrary: s)
  case Nil
  show ?case by (simp add: origin_removals_def)
next
  case (Cons u rs)
  have "(\<lambda>p. fst p \<notin> set rs \<and> fst p \<noteq> u) = (\<lambda>p::ActorUniqueID \<times> u64. fst p \<noteq> u \<and> fst p \<notin> set rs)"
    by auto
  then show ?case
    by (simp add: origin_removals_Cons Cons.IH remove_keeps remove_store)
qed

text \<open>The state after an allowed call, field by field.\<close>

lemma allowed_fields:
  "config (allowed uid t rs s) = config s
   \<and> dynMaxPerTick (allowed uid t rs s) = dynMaxPerTick s
   \<and> dynCooldownTicks (allowed uid t rs s) = dynCooldownTicks s
   \<and> lastTickId (allowed uid t rs s) = lastTickId s
   \<and> processedThisTick (allowed uid t rs s) = processedThisTick s + 1
   \<and> totalProcessed (allowed uid t rs s) = totalProcessed s + 1
   \<and> lastItemTick (allowed uid t rs s)
       = assign (if enabled (config s) then filter (\<lambda>p. fst p \<notin> set rs) (lastItemTick s)
                 else lastItemTick s) uid t"
  by (simp add: allowed_def Let_def origin_removals_keeps origin_removals_store)

lemma assign_fresh:
  "map_of m k = None \<Longrightarrow> assign (m @ [(k, v)]) k t = m @ [(k, t)]"
  by (induction m) (auto split: if_splits)

section \<open>The frame boundary\<close>

lemma frame_boundary_same: "lastTickId s = t \<Longrightarrow> frame_boundary t s = s"
  by (simp add: frame_boundary_def)

lemma new_tick_fields:
  "config (new_tick t s) = config s \<and> lastTickId (new_tick t s) = t
   \<and> processedThisTick (new_tick t s) = 0 \<and> dynMaxPerTick (new_tick t s) = dynMaxPerTick s
   \<and> dynCooldownTicks (new_tick t s) = dynCooldownTicks s"
  by (simp add: new_tick_def Let_def split: prod.splits)

lemma frame_boundary_fields:
  "config (frame_boundary t s) = config s \<and> lastTickId (frame_boundary t s) = t
   \<and> dynMaxPerTick (frame_boundary t s) = dynMaxPerTick s
   \<and> dynCooldownTicks (frame_boundary t s) = dynCooldownTicks s"
  by (simp add: frame_boundary_def new_tick_fields)

lemma frame_boundary_idem: "frame_boundary t (frame_boundary t s) = frame_boundary t s"
  by (rule frame_boundary_same) (simp add: frame_boundary_fields)

lemma gate_after_boundary:
  "enabled (config s) \<Longrightarrow>
     ItemActorTickHook True uid t rs (frame_boundary t s) = ItemActorTickHook True uid t rs s"
  by (simp add: ItemActorTickHook_def frame_boundary_idem frame_boundary_fields)

lemma frame_after_boundary:
  "enabled (config s) \<Longrightarrow> calls \<noteq> [] \<Longrightarrow> frame t calls (frame_boundary t s) = frame t calls s"
proof (cases calls)
  case Nil
  assume "calls \<noteq> []"
  then show ?thesis using Nil by simp
next
  case (Cons c cs)
  assume "enabled (config s)"
  then show ?thesis using Cons by (cases c) (simp add: gate_after_boundary)
qed


lemma boundary_store:
  "\<exists>P. lastItemTick (frame_boundary t s) = filter P (lastItemTick s)"
proof (cases "t \<noteq> lastTickId s \<and> cleanupIntervalTicks (config s) \<le>s cleanupCounter s + 1")
  case True
  then have "lastItemTick (frame_boundary t s)
    = filter (\<lambda>p. t - snd p \<le> scast (maxExpiredAge (config s))) (lastItemTick s)"
    by (simp add: frame_boundary_def new_tick_def Let_def sweep_filter)
  then show ?thesis by blast
next
  case False
  then have "lastItemTick (frame_boundary t s) = filter (\<lambda>p. True) (lastItemTick s)"
    by (auto simp: frame_boundary_def new_tick_def Let_def)
  then show ?thesis by blast
qed

lemma boundary_absent:
  "map_of (lastItemTick s) uid = None \<Longrightarrow> map_of (lastItemTick (frame_boundary t s)) uid = None"
  using boundary_store [of t s] by (auto simp: map_of_filter_absent)

lemma boundary_present:
  assumes "store_ok (lastItemTick s)" "map_of (lastItemTick s) uid = Some T"
  shows "map_of (lastItemTick (frame_boundary t s)) uid = Some T
         \<or> map_of (lastItemTick (frame_boundary t s)) uid = None"
proof -
  obtain P where "lastItemTick (frame_boundary t s) = filter P (lastItemTick s)"
    using boundary_store by blast
  then show ?thesis
    using map_of_filter_distinct [OF assms(1) [unfolded store_ok_def] assms(2), of P] by auto
qed

section \<open>The hook by cases\<close>

text \<open>
  The active hook, read through the lookup of the store as it is after the frame boundary:
  the quota test, then the cooldown test on an existing entry, then the allowed call.
\<close>

lemma gate_cases:
  assumes "enabled (config s)"
  shows "ItemActorTickHook True uid t rs s =
     (let s1 = frame_boundary t s in
      if dynMaxPerTick s1 \<le>s processedThisTick s1
      then (DenyThrottle, s1\<lparr>totalThrottleSkipped := totalThrottleSkipped s1 + 1\<rparr>)
      else (case map_of (lastItemTick s1) uid of
        Some T \<Rightarrow>
          if t - T < scast (dynCooldownTicks s1)
          then (DenyCooldown, s1\<lparr>totalCooldownSkipped := totalCooldownSkipped s1 + 1\<rparr>)
          else (Allow, allowed uid t rs s1)
      | None \<Rightarrow>
          (Allow, allowed uid t rs (s1\<lparr>lastItemTick := lastItemTick s1 @ [(uid, 0)]\<rparr>))))"
  using assms
  by (auto simp: ItemActorTickHook_def Let_def emplace_eq split: option.splits)

lemma gate_absent:
  assumes "enabled (config s)" "map_of (lastItemTick s) uid = None"
  shows "ItemActorTickHook True uid t rs s =
     (if dynMaxPerTick (frame_boundary t s) \<le>s processedThisTick (frame_boundary t s)
      then (DenyThrottle, (frame_boundary t s)\<lparr>totalThrottleSkipped :=
              totalThrottleSkipped (frame_boundary t s) + 1\<rparr>)
      else (Allow, allowed uid t rs ((frame_boundary t s)\<lparr>lastItemTick :=
              lastItemTick (frame_boundary t s) @ [(uid, 0)]\<rparr>)))"
  using boundary_absent [OF assms(2), of t]
  by (simp add: gate_cases [OF assms(1)] Let_def)

lemma gate_keeps:
  "config (snd (ItemActorTickHook i u t rs s)) = config s
   \<and> dynMaxPerTick (snd (ItemActorTickHook i u t rs s)) = dynMaxPerTick s
   \<and> dynCooldownTicks (snd (ItemActorTickHook i u t rs s)) = dynCooldownTicks s"
  by (simp add: ItemActorTickHook_def Let_def frame_boundary_fields allowed_fields
        origin_removals_keeps split: prod.splits)

lemma disable_preserves:
  "config (disable s) = config s \<and> dynMaxPerTick (disable s) = dynMaxPerTick s
   \<and> dynCooldownTicks (disable s) = dynCooldownTicks s"
  by (simp add: disable_def resetStats_def stopDebugTask_def)

section \<open>Concrete states\<close>

lemma quota10_frame: "fst (frame 5 ten_calls quota10) = replicate 10 Allow"
  by code_simp

lemma quota10_fields:
  "dynMaxPerTick quota10 = 10 \<and> dynCooldownTicks quota10 = 2
   \<and> enabled (config quota10) \<and> lastTickId quota10 = 0 \<and> lastItemTick quota10 = []"
  by code_simp

lemma seen_at_5_fields:
  "enabled (config seen_at_5) \<and> lastItemTick seen_at_5 = [(1, 5)]
   \<and> dynCooldownTicks seen_at_5 = 2 \<and> dynMaxPerTick seen_at_5 = 10
   \<and> lastTickId seen_at_5 = 5 \<and> processedThisTick seen_at_5 = 1
   \<and> totalProcessed seen_at_5 = 1 \<and> totalCooldownSkipped seen_at_5 = 0"
  unfolding seen_at_5_def by code_simp

lemma quota_full_fields:
  "enabled (config quota_full) \<and> map_of (lastItemTick quota_full) 1 = Some 5
   \<and> map_of (lastItemTick quota_full) 12 = None
   \<and> dynCooldownTicks quota_full = 2 \<and> dynMaxPerTick quota_full = 10
   \<and> lastTickId quota_full = 6 \<and> processedThisTick quota_full = 10
   \<and> store_ok (lastItemTick quota_full)"
  unfolding quota_full_def seen_at_5_def by code_simp

text \<open>
  An actor removed while its own allowed tick runs: the removal hook erases the entry that
  \<open>emplace\<close> has just inserted, and the store is left without it.
\<close>

lemma removed_in_own_tick:
  "ItemActorTickHook True 1 5 [1] quota10 =
     (Allow, quota10\<lparr>lastTickId := 5, cleanupCounter := 1, processedThisTick := 1,
                      totalDespawnCleaned := 1, totalProcessed := 1\<rparr>)
   \<and> lastItemTick (snd (ItemActorTickHook True 1 5 [1] quota10)) = []"
  by code_simp

section \<open>The keys of the store stay distinct\<close>

lemma store_ok_filter: "store_ok m \<Longrightarrow> store_ok (filter P m)"
  by (simp add: store_ok_def distinct_map_filter)

lemma store_ok_emplace: "store_ok m \<Longrightarrow> store_ok (fst (emplace m k v))"
  by (auto simp: store_ok_def emplace_eq map_of_eq_None_iff split: option.splits)

lemma store_ok_assign: "store_ok m \<Longrightarrow> store_ok (assign m k v)"
  by (simp add: store_ok_def keys_assign)

lemma store_ok_boundary:
  "store_ok (lastItemTick s) \<Longrightarrow> store_ok (lastItemTick (frame_boundary t s))"
  using boundary_store [of t s] by (auto simp: store_ok_filter)

lemma store_ok_removals:
  "store_ok (lastItemTick s) \<Longrightarrow> store_ok (lastItemTick (origin_removals rs s))"
  by (simp add: origin_removals_store store_ok_filter)

lemma store_ok_allowed:
  "store_ok (lastItemTick s) \<Longrightarrow> store_ok (lastItemTick (allowed u t rs s))"
  by (simp add: allowed_fields store_ok_assign store_ok_filter)

lemma store_ok_gate:
  assumes "store_ok (lastItemTick s)"
  shows "store_ok (lastItemTick (snd (ItemActorTickHook i u t rs s)))"
proof (cases "enabled (config s) \<and> i")
  case True
  note b = store_ok_boundary [OF assms, of t]
  have "store_ok (lastItemTick (frame_boundary t s) @ [(u, 0)])"
    if "map_of (lastItemTick (frame_boundary t s)) u = None"
    using b that by (auto simp: store_ok_def map_of_eq_None_iff)
  then show ?thesis using True b
    by (auto simp: gate_cases Let_def store_ok_allowed split: option.splits)
next
  case False
  then show ?thesis using assms by (auto simp: ItemActorTickHook_def store_ok_removals)
qed

lemma store_ok_step: "store_ok (lastItemTick s) \<Longrightarrow> store_ok (lastItemTick (step s ev))"
proof (cases ev)
  case (ItemTick i u t rs)
  assume "store_ok (lastItemTick s)"
  then show ?thesis using ItemTick by (simp add: store_ok_gate)
qed (auto simp: enable_def startDebugTask_def Let_def disable_def resetStats_def stopDebugTask_def
       LevelTickHook_def remove_store despawn_store store_ok_def distinct_map_filter)

lemma store_ok_run:
  "store_ok (lastItemTick s) \<Longrightarrow> store_ok (lastItemTick (run s evs))"
  unfolding run_def by (induction evs arbitrary: s) (simp_all add: store_ok_step)

text \<open>Every state the host can reach has a store with distinct keys.\<close>

lemma store_ok_reachable: "store_ok (lastItemTick (run (loaded_state l c) evs))"
  by (rule store_ok_run) (simp add: loaded_state_def init_state_def store_ok_def)
section \<open>The quota inside a frame\<close>

lemma gate_throttled:
  assumes "enabled (config s)" "lastTickId s = t" "dynMaxPerTick s \<le>s processedThisTick s"
  shows "ItemActorTickHook True uid t rs s
         = (DenyThrottle, s\<lparr>totalThrottleSkipped := totalThrottleSkipped s + 1\<rparr>)"
  using assms by (simp add: ItemActorTickHook_def frame_boundary_def)

lemma frame_throttled:
  assumes "enabled (config s)" "lastTickId s = t" "dynMaxPerTick s \<le>s processedThisTick s"
  shows "frame t calls s = (replicate (length calls) DenyThrottle,
           s\<lparr>totalThrottleSkipped := totalThrottleSkipped s + of_nat (length calls)\<rparr>)"
  using assms
proof (induction calls arbitrary: s)
  case Nil
  then show ?case by simp
next
  case (Cons c cs)
  obtain u rs where c: "c = (u, rs)" by (cases c)
  let ?s1 = "s\<lparr>totalThrottleSkipped := totalThrottleSkipped s + 1\<rparr>"
  have g: "ItemActorTickHook True u t rs s = (DenyThrottle, ?s1)"
    using Cons.prems by (rule gate_throttled)
  have "frame t cs ?s1 = (replicate (length cs) DenyThrottle,
           ?s1\<lparr>totalThrottleSkipped := totalThrottleSkipped ?s1 + of_nat (length cs)\<rparr>)"
    using Cons.prems by (intro Cons.IH) simp_all
  then show ?case using g c by (simp add: add.assoc add.commute)
qed

text \<open>
  Inside a frame the in-frame counter goes up by one on each \<open>Allow\<close> and stays otherwise;
  the quota is not changed by the hook, whatever the host's tick removes.
\<close>

lemma gate_in_frame:
  assumes "in_frame t s" and g: "ItemActorTickHook True uid t rs s = (d, s')"
  shows "in_frame t s' \<and> dynMaxPerTick s' = dynMaxPerTick s
         \<and> sint (processedThisTick s') = sint (processedThisTick s) + (if d = Allow then 1 else 0)"
proof -
  have en: "enabled (config s)" and lt: "lastTickId s = t" and nn: "0 \<le> sint (processedThisTick s)"
    using assms(1) by (simp_all add: in_frame_def)
  have fb: "frame_boundary t s = s" using lt by (rule frame_boundary_same)
  show ?thesis
  proof (cases "dynMaxPerTick s \<le>s processedThisTick s")
    case True
    then show ?thesis using g gate_throttled [OF en lt True, of uid rs] assms(1)
      by (auto simp: in_frame_def)
  next
    case False
    then have "processedThisTick s <s dynMaxPerTick s"
      by (simp add: word_sle_eq word_sless_alt)
    then have suc: "sint (processedThisTick s + 1) = sint (processedThisTick s) + 1"
      by (rule sint_succ)
    show ?thesis using g False en lt nn suc
      by (auto simp: gate_cases [OF en] fb in_frame_def Let_def allowed_fields
               split: option.splits if_splits)
  qed
qed

lemma frame_in_frame:
  assumes "in_frame t s" and "frame t calls s = (ds, s')"
  shows "in_frame t s' \<and> dynMaxPerTick s' = dynMaxPerTick s
         \<and> sint (processedThisTick s') = sint (processedThisTick s) + int (count_list ds Allow)"
  using assms
proof (induction calls arbitrary: s ds s')
  case Nil
  then show ?case by simp
next
  case (Cons c cs)
  obtain u rs where c: "c = (u, rs)" by (cases c)
  obtain d s1 where g: "ItemActorTickHook True u t rs s = (d, s1)"
    by (cases "ItemActorTickHook True u t rs s")
  obtain ds1 s2 where f: "frame t cs s1 = (ds1, s2)" by (cases "frame t cs s1")
  have eq: "ds = d # ds1" "s' = s2" using Cons.prems(2) g f c by simp_all
  note a = gate_in_frame [OF Cons.prems(1) g]
  have b: "in_frame t s2 \<and> dynMaxPerTick s2 = dynMaxPerTick s1
         \<and> sint (processedThisTick s2) = sint (processedThisTick s1) + int (count_list ds1 Allow)"
    using a f by (intro Cons.IH) simp_all
  show ?case using a b eq by auto
qed

text \<open>
  Claim C1. Take a frame: gate calls for item actors, all with the same \<open>currentTick\<close>,
  opened either by the first call of \<open>pre\<close> seeing a new tick id or at a state that already
  carries this tick id with an in-frame counter of zero. Once the calls \<open>pre\<close> made so far
  contain at least \<open>dynMaxPerTick\<close> allowed ones, every further call of the frame, for any
  actor ids \<open>post\<close>, returns \<open>DenyThrottle\<close>, adds one to \<open>totalThrottleSkipped\<close>, and changes
  nothing else: the timestamp store stays as it was. This holds whatever the host's ticks
  of the allowed actors removed.
\<close>

theorem throttle_after_quota:
  assumes en: "enabled (config s)"
    and start: "(currentTick \<noteq> lastTickId s \<and> pre \<noteq> []) \<or>
                (currentTick = lastTickId s \<and> processedThisTick s = 0)"
    and reached: "sint (dynMaxPerTick s) \<le> int (count_list (fst (frame currentTick pre s)) Allow)"
  shows "frame currentTick post (snd (frame currentTick pre s)) =
           (replicate (length post) DenyThrottle,
            (snd (frame currentTick pre s))\<lparr>totalThrottleSkipped :=
               totalThrottleSkipped (snd (frame currentTick pre s)) + of_nat (length post)\<rparr>)"
proof -
  let ?b = "frame_boundary currentTick s"
  obtain ds s1 where f: "frame currentTick pre s = (ds, s1)"
    by (cases "frame currentTick pre s")
  have fb: "frame currentTick pre ?b = (ds, s1)"
  proof (cases "currentTick = lastTickId s")
    case True
    then show ?thesis using f by (simp add: frame_boundary_def)
  next
    case False
    then have "pre \<noteq> []" using start by simp
    then show ?thesis using f en by (simp add: frame_after_boundary)
  qed
  have p0: "processedThisTick ?b = 0"
    using start by (auto simp: frame_boundary_def new_tick_fields)
  have inb: "in_frame currentTick ?b"
    using en p0 by (simp add: in_frame_def frame_boundary_fields)
  from frame_in_frame [OF inb fb]
  have i1: "in_frame currentTick s1" and d1: "dynMaxPerTick s1 = dynMaxPerTick ?b"
    and c1: "sint (processedThisTick s1) = sint (processedThisTick ?b) + int (count_list ds Allow)"
    by simp_all
  have "sint (dynMaxPerTick s1) \<le> sint (processedThisTick s1)"
    using reached f d1 c1 p0 by (simp add: frame_boundary_fields)
  then have thr: "dynMaxPerTick s1 \<le>s processedThisTick s1"
    by (simp add: word_sle_eq)
  have "frame currentTick post s1 = (replicate (length post) DenyThrottle,
           s1\<lparr>totalThrottleSkipped := totalThrottleSkipped s1 + of_nat (length post)\<rparr>)"
    using i1 thr by (intro frame_throttled) (simp_all add: in_frame_def)
  then show ?thesis using f by simp
qed

theorem throttle_after_quota_witness:
  "enabled (config quota10) \<and> 5 \<noteq> lastTickId quota10
   \<and> sint (dynMaxPerTick quota10) \<le> int (count_list (fst (frame 5 ten_calls quota10)) Allow)
   \<and> fst (frame 5 [(11, []), (3, [])] (snd (frame 5 ten_calls quota10)))
       = [DenyThrottle, DenyThrottle]"
proof -
  have a: "enabled (config quota10)" and b: "5 \<noteq> lastTickId quota10"
    using quota10_fields by simp_all
  have n: "int (count_list (replicate 10 Allow) Allow) = 10" by code_simp
  have c: "sint (dynMaxPerTick quota10) \<le> int (count_list (fst (frame 5 ten_calls quota10)) Allow)"
    unfolding quota10_frame n using quota10_fields by simp
  have ne: "ten_calls \<noteq> []" by (simp add: ten_calls_def)
  have d: "(5 \<noteq> lastTickId quota10 \<and> ten_calls \<noteq> []) \<or>
           (5 = lastTickId quota10 \<and> processedThisTick quota10 = 0)" using b ne by simp
  have r: "replicate (length [(11, []), (3, []) :: call]) DenyThrottle
           = [DenyThrottle, DenyThrottle]"
    by simp
  have e: "fst (frame 5 [(11, []), (3, [])] (snd (frame 5 ten_calls quota10)))
           = [DenyThrottle, DenyThrottle]"
    unfolding throttle_after_quota [OF a d c, of "[(11, []), (3, [])]"] fst_conv by (rule r)
  show ?thesis by (intro conjI a b c e)
qed

section \<open>Cooldown and first sight of an actor\<close>

text \<open>
  For ticks that have not run backwards and a cooldown that is not negative, the
  comparison of line 189 is the comparison of the integers.
\<close>

lemma uint_scast_nonneg:
  fixes cd :: cint
  assumes "0 \<le> sint cd"
  shows "uint (scast cd :: u64) = sint cd"
proof -
  have lt: "sint cd < 2 ^ 31" using sint_lt [of cd] by simp
  have "uint (word_of_int (sint cd) :: u64) = take_bit LENGTH(64) (sint cd)"
    by (rule uint_word_of_int_eq)
  also have "\<dots> = sint cd"
    using assms lt by (simp add: take_bit_int_eq_self)
  finally show ?thesis by (simp only: scast_eq)
qed

lemma age_less_int:
  fixes t T :: u64 and cd :: cint
  assumes "T \<le> t" and "0 \<le> sint cd"
  shows "(t - T < scast cd) = (int (unat t) - int (unat T) < sint cd)"
proof -
  have le: "unat T \<le> unat t" using assms(1) by (simp add: word_le_nat_alt)
  have a: "unat (t - T) = unat t - unat T" using assms(1) by (rule unat_sub)
  have b: "uint (scast cd :: u64) = sint cd" using assms(2) by (rule uint_scast_nonneg)
  have "(t - T < scast cd) = (uint (t - T) < uint (scast cd :: u64))"
    by (rule word_less_def)
  also have "\<dots> = (int (unat (t - T)) < sint cd)"
    by (simp only: b of_nat_unat)
  also have "\<dots> = (int (unat t) - int (unat T) < sint cd)"
    using le by (simp only: a of_nat_diff)
  finally show ?thesis .
qed

lemma allowed_store_present:
  assumes "enabled (config b)" "store_ok (lastItemTick b)" "map_of (lastItemTick b) uid = Some T"
    and "uid \<notin> set rs"
  shows "map_of (lastItemTick (allowed uid t rs b))
           = (map_of (filter (\<lambda>p. fst p \<notin> set rs) (lastItemTick b)))(uid \<mapsto> t)"
proof -
  have "map_of (filter (\<lambda>p. fst p \<notin> set rs) (lastItemTick b)) uid = Some T"
    using map_of_filter_distinct [OF assms(2) [unfolded store_ok_def] assms(3),
            of "\<lambda>p. fst p \<notin> set rs"] assms(4)
    by simp
  then show ?thesis using assms(1) by (simp add: allowed_fields map_of_assign)
qed

lemma allowed_store_fresh:
  assumes "enabled (config b)" "map_of (lastItemTick b) uid = None" "uid \<notin> set rs"
  shows "lastItemTick (allowed uid t rs (b\<lparr>lastItemTick := lastItemTick b @ [(uid, 0)]\<rparr>))
           = filter (\<lambda>p. fst p \<notin> set rs) (lastItemTick b) @ [(uid, t)]"
proof -
  have "map_of (filter (\<lambda>p. fst p \<notin> set rs) (lastItemTick b)) uid = None"
    using assms(2) by (rule map_of_filter_absent)
  then show ?thesis using assms(1,3) by (simp add: allowed_fields assign_fresh)
qed

text \<open>
  Claim C2, as amended. Let the hook be active and the store hold the timestamp \<open>T\<close> for the
  actor, and take a call for that actor at tick \<open>t\<close>. If the quota of the frame is used up
  when the call reaches the quota test, it returns \<open>DenyThrottle\<close> whatever \<open>t - T\<close> is, adds
  one to \<open>totalThrottleSkipped\<close> and changes nothing else after the frame boundary.
  Otherwise: if \<open>t - T\<close> is below \<open>dynCooldownTicks\<close> and the entry is still there after the
  frame boundary of this call (the sweep did not erase it), the call returns
  \<open>DenyCooldown\<close>, adds one to \<open>totalCooldownSkipped\<close> and changes nothing else after the
  frame boundary; if \<open>t - T\<close> is not below \<open>dynCooldownTicks\<close>, the call returns \<open>Allow\<close> and
  adds one to \<open>processedThisTick\<close> and to \<open>totalProcessed\<close>, and, provided the actor is not
  removed while its own tick runs, the store afterwards holds \<open>t\<close> for the actor (and no
  longer the entries of the actors that the tick removed). The subtraction is the unsigned
  one of the code (\<open>age_less_int\<close> gives its integer reading).
\<close>

theorem cooldown_gate:
  assumes en: "enabled (config s)"
    and ok: "store_ok (lastItemTick s)"
    and stored: "map_of (lastItemTick s) uid = Some T"
  shows "(dynMaxPerTick (frame_boundary t s) \<le>s processedThisTick (frame_boundary t s) \<longrightarrow>
          ItemActorTickHook True uid t removed s
            = (DenyThrottle, (frame_boundary t s)\<lparr>totalThrottleSkipped :=
                 totalThrottleSkipped (frame_boundary t s) + 1\<rparr>))
       \<and> (\<not> dynMaxPerTick (frame_boundary t s) \<le>s processedThisTick (frame_boundary t s)
            \<and> t - T < scast (dynCooldownTicks s)
            \<and> map_of (lastItemTick (frame_boundary t s)) uid = Some T \<longrightarrow>
          ItemActorTickHook True uid t removed s
            = (DenyCooldown, (frame_boundary t s)\<lparr>totalCooldownSkipped :=
                 totalCooldownSkipped (frame_boundary t s) + 1\<rparr>))
       \<and> (\<not> dynMaxPerTick (frame_boundary t s) \<le>s processedThisTick (frame_boundary t s)
            \<and> \<not> t - T < scast (dynCooldownTicks s) \<longrightarrow>
            fst (ItemActorTickHook True uid t removed s) = Allow
          \<and> processedThisTick (snd (ItemActorTickHook True uid t removed s))
              = processedThisTick (frame_boundary t s) + 1
          \<and> totalProcessed (snd (ItemActorTickHook True uid t removed s)) = totalProcessed s + 1
          \<and> (uid \<notin> set removed \<longrightarrow>
               map_of (lastItemTick (snd (ItemActorTickHook True uid t removed s)))
                 = (map_of (filter (\<lambda>p. fst p \<notin> set removed)
                       (lastItemTick (frame_boundary t s))))(uid \<mapsto> t)))"
proof -
  let ?b = "frame_boundary t s"
  have enb: "enabled (config ?b)" using en by (simp add: frame_boundary_fields)
  have okb: "store_ok (lastItemTick ?b)" using ok by (rule store_ok_boundary)
  have cd: "dynCooldownTicks ?b = dynCooldownTicks s" by (simp add: frame_boundary_fields)
  have tp: "totalProcessed ?b = totalProcessed s"
    by (simp add: frame_boundary_def new_tick_def Let_def split: prod.splits)
  from boundary_present [OF ok stored, of t]
  show ?thesis
  proof
    assume p: "map_of (lastItemTick ?b) uid = Some T"
    show ?thesis using p cd tp allowed_store_present [OF enb okb p, of removed t]
      by (simp add: gate_cases [OF en] Let_def allowed_fields)
  next
    assume a: "map_of (lastItemTick ?b) uid = None"
    have f: "map_of (filter (\<lambda>p. fst p \<notin> set removed) (lastItemTick ?b)) uid = None"
      using a by (rule map_of_filter_absent)
    show ?thesis using a cd tp f allowed_store_fresh [OF enb a, of removed t]
      by (simp add: gate_cases [OF en] Let_def allowed_fields map_add_fresh)
  qed
qed

lemma seen_at_5_next_ticks:
  "\<not> dynMaxPerTick (frame_boundary 6 seen_at_5) \<le>s processedThisTick (frame_boundary 6 seen_at_5)
   \<and> \<not> dynMaxPerTick (frame_boundary 7 seen_at_5) \<le>s processedThisTick (frame_boundary 7 seen_at_5)
   \<and> map_of (lastItemTick (frame_boundary 6 seen_at_5)) 1 = Some 5
   \<and> lastItemTick (frame_boundary 7 seen_at_5) = [(1, 5)]
   \<and> (6 :: u64) - 5 < scast (dynCooldownTicks seen_at_5)
   \<and> \<not> (7 :: u64) - 5 < scast (dynCooldownTicks seen_at_5)
   \<and> store_ok (lastItemTick seen_at_5)
   \<and> map_of (lastItemTick seen_at_5) 1 = Some 5
   \<and> dynMaxPerTick (frame_boundary 6 quota_full) \<le>s processedThisTick (frame_boundary 6 quota_full)"
  unfolding quota_full_def seen_at_5_def by code_simp

theorem cooldown_gate_witness:
  "enabled (config seen_at_5) \<and> store_ok (lastItemTick seen_at_5)
   \<and> map_of (lastItemTick seen_at_5) 1 = Some 5
   \<and> fst (ItemActorTickHook True 1 6 [] seen_at_5) = DenyCooldown
   \<and> fst (ItemActorTickHook True 1 7 [9] seen_at_5) = Allow
   \<and> map_of (lastItemTick (snd (ItemActorTickHook True 1 7 [9] seen_at_5))) 1 = Some 7
   \<and> enabled (config quota_full) \<and> store_ok (lastItemTick quota_full)
   \<and> map_of (lastItemTick quota_full) 1 = Some 5
   \<and> fst (ItemActorTickHook True 1 6 [] quota_full) = DenyThrottle"
proof -
  note f = seen_at_5_next_ticks
  have en: "enabled (config seen_at_5)" using seen_at_5_fields by simp
  have ok: "store_ok (lastItemTick seen_at_5)" using f by simp
  have st: "map_of (lastItemTick seen_at_5) 1 = Some 5" using f by simp
  have en': "enabled (config quota_full)" and ok': "store_ok (lastItemTick quota_full)"
    and st': "map_of (lastItemTick quota_full) 1 = Some 5"
    using quota_full_fields by simp_all
  have d: "fst (ItemActorTickHook True 1 6 [] seen_at_5) = DenyCooldown"
    using cooldown_gate [OF en ok st, of 6 "[]"] f by simp
  have a: "fst (ItemActorTickHook True 1 7 [9] seen_at_5) = Allow
           \<and> map_of (lastItemTick (snd (ItemActorTickHook True 1 7 [9] seen_at_5))) 1 = Some 7"
    using cooldown_gate [OF en ok st, of 7 "[9]"] f by simp
  have t: "fst (ItemActorTickHook True 1 6 [] quota_full) = DenyThrottle"
    using cooldown_gate [OF en' ok' st', of 6 "[]"] f by simp
  show ?thesis using en ok st d a en' ok' st' t by simp
qed

text \<open>
  The claim as it is written fails: actor 1 was allowed at tick 5, the cooldown is 2, and
  at tick 6 the ten actors 2 to 11 have used up the quota of 10. The call for actor 1 at
  tick 6 has \<open>6 - 5 < 2\<close> and returns \<open>DenyThrottle\<close>, not \<open>DenyCooldown\<close>.
\<close>

theorem cooldown_counterexample:
  "map_of (lastItemTick quota_full) 1 = Some 5
   \<and> (6 :: u64) - 5 < scast (dynCooldownTicks quota_full)
   \<and> fst (ItemActorTickHook True 1 6 [] quota_full) = DenyThrottle
   \<and> fst (ItemActorTickHook True 1 6 [] quota_full) \<noteq> DenyCooldown"
  unfolding quota_full_def seen_at_5_def by code_simp

text \<open>
  Claim C3, as amended. For an actor id that is not in the store, an active call that the
  quota turns down returns \<open>DenyThrottle\<close> and does not record the id: the store is the one
  left by the frame boundary and still has no entry for it. A call that passes the quota
  test inserts the id with the placeholder 0 and is allowed, since an entry that was just
  inserted is never on cooldown. Provided the actor is not removed while its own tick
  runs, the placeholder is overwritten in the same call, so the id is recorded with
  \<open>currentTick\<close>, at its first allowed call.
\<close>

theorem first_sight:
  assumes "enabled (config s)" and "map_of (lastItemTick s) uid = None"
  shows "(dynMaxPerTick (frame_boundary t s) \<le>s processedThisTick (frame_boundary t s) \<longrightarrow>
            fst (ItemActorTickHook True uid t removed s) = DenyThrottle
          \<and> lastItemTick (snd (ItemActorTickHook True uid t removed s))
              = lastItemTick (frame_boundary t s)
          \<and> map_of (lastItemTick (snd (ItemActorTickHook True uid t removed s))) uid = None)
       \<and> (\<not> dynMaxPerTick (frame_boundary t s) \<le>s processedThisTick (frame_boundary t s) \<longrightarrow>
            fst (ItemActorTickHook True uid t removed s) = Allow
          \<and> (uid \<notin> set removed \<longrightarrow>
               lastItemTick (snd (ItemActorTickHook True uid t removed s))
                 = filter (\<lambda>p. fst p \<notin> set removed) (lastItemTick (frame_boundary t s))
                   @ [(uid, t)]
             \<and> map_of (lastItemTick (snd (ItemActorTickHook True uid t removed s))) uid
                 = Some t))"
proof -
  let ?b = "frame_boundary t s"
  have enb: "enabled (config ?b)" using assms(1) by (simp add: frame_boundary_fields)
  have a: "map_of (lastItemTick ?b) uid = None" using assms(2) by (rule boundary_absent)
  have f: "map_of (filter (\<lambda>p. fst p \<notin> set removed) (lastItemTick ?b)) uid = None"
    using a by (rule map_of_filter_absent)
  show ?thesis using a f allowed_store_fresh [OF enb a, of removed t]
    by (simp add: gate_absent [OF assms] map_add_fresh)
qed

lemma unseen_actor_facts:
  "map_of (lastItemTick seen_at_5) 2 = None
   \<and> \<not> dynMaxPerTick (frame_boundary 5 seen_at_5) \<le>s processedThisTick (frame_boundary 5 seen_at_5)
   \<and> lastItemTick (frame_boundary 5 seen_at_5) = [(1, 5)]
   \<and> dynMaxPerTick (frame_boundary 6 quota_full) \<le>s processedThisTick (frame_boundary 6 quota_full)
   \<and> map_of (lastItemTick (frame_boundary 6 quota_full)) 12 = None"
  unfolding quota_full_def seen_at_5_def by code_simp

theorem first_sight_witness:
  "enabled (config quota_full) \<and> map_of (lastItemTick quota_full) 12 = None
   \<and> fst (ItemActorTickHook True 12 6 [] quota_full) = DenyThrottle
   \<and> map_of (lastItemTick (snd (ItemActorTickHook True 12 6 [] quota_full))) 12 = None
   \<and> enabled (config seen_at_5) \<and> map_of (lastItemTick seen_at_5) 2 = None
   \<and> fst (ItemActorTickHook True 2 5 [1] seen_at_5) = Allow
   \<and> lastItemTick (snd (ItemActorTickHook True 2 5 [1] seen_at_5)) = [(2, 5)]"
proof -
  have e1: "enabled (config quota_full)" and a1: "map_of (lastItemTick quota_full) 12 = None"
    using quota_full_fields by simp_all
  have e2: "enabled (config seen_at_5)" using seen_at_5_fields by simp
  have a2: "map_of (lastItemTick seen_at_5) 2 = None" using unseen_actor_facts by simp
  have 1: "fst (ItemActorTickHook True 12 6 [] quota_full) = DenyThrottle
           \<and> map_of (lastItemTick (snd (ItemActorTickHook True 12 6 [] quota_full))) 12 = None"
    using first_sight [OF e1 a1, of 6 "[]"] unseen_actor_facts by simp
  have 2: "fst (ItemActorTickHook True 2 5 [1] seen_at_5) = Allow
           \<and> lastItemTick (snd (ItemActorTickHook True 2 5 [1] seen_at_5)) = [(2, 5)]"
    using first_sight [OF e2 a2, of 5 "[1]"] unseen_actor_facts by simp
  show ?thesis using e1 a1 e2 a2 1 2 by simp
qed

text \<open>
  The claim as it is written fails: with the quota of the frame used up, the call for the
  unseen actor 12 returns \<open>DenyThrottle\<close> and the store has no entry for 12 afterwards, so
  no placeholder 0 was recorded.
\<close>

theorem first_sight_counterexample:
  "map_of (lastItemTick quota_full) 12 = None
   \<and> fst (ItemActorTickHook True 12 6 [] quota_full) = DenyThrottle
   \<and> map_of (lastItemTick (snd (ItemActorTickHook True 12 6 [] quota_full))) 12 = None
   \<and> map_of (lastItemTick (snd (ItemActorTickHook True 12 6 [] quota_full))) 12 \<noteq> Some 0"
  unfolding quota_full_def seen_at_5_def by code_simp

text \<open>
  Claim C9. A call of the hook for an actor id that is not in the store never returns
  \<open>DenyCooldown\<close>; when the hook is active the call returns \<open>DenyThrottle\<close> if the quota of
  the frame is used up and \<open>Allow\<close> otherwise. The removal hooks, when active, leave the
  store without the id, so a call of the hook right after a removal is decided in the same
  way as for an id never seen: it never returns \<open>DenyCooldown\<close>.
\<close>

theorem absent_id_never_cooldown:
  "(map_of (lastItemTick s) uid = None \<longrightarrow>
      fst (ItemActorTickHook isItem uid t removed s) \<noteq> DenyCooldown
    \<and> (enabled (config s) \<and> isItem \<longrightarrow>
         fst (ItemActorTickHook isItem uid t removed s)
           = (if dynMaxPerTick (frame_boundary t s) \<le>s processedThisTick (frame_boundary t s)
              then DenyThrottle else Allow)))
   \<and> (enabled (config s) \<longrightarrow>
        map_of (lastItemTick (ActorDespawnHook uid s)) uid = None
      \<and> map_of (lastItemTick (ActorRemoveHook uid s)) uid = None)
   \<and> fst (ItemActorTickHook isItem uid t removed (ActorDespawnHook uid s)) \<noteq> DenyCooldown
   \<and> fst (ItemActorTickHook isItem uid t removed (ActorRemoveHook uid s)) \<noteq> DenyCooldown
   \<and> (enabled (config s) \<and> isItem \<longrightarrow>
        fst (ItemActorTickHook isItem uid t removed (ActorDespawnHook uid s))
          = (if dynMaxPerTick (frame_boundary t (ActorDespawnHook uid s))
                  \<le>s processedThisTick (frame_boundary t (ActorDespawnHook uid s))
             then DenyThrottle else Allow))"
proof -
  have g: "fst (ItemActorTickHook isItem uid t removed s') \<noteq> DenyCooldown
    \<and> (enabled (config s') \<and> isItem \<longrightarrow>
         fst (ItemActorTickHook isItem uid t removed s')
           = (if dynMaxPerTick (frame_boundary t s') \<le>s processedThisTick (frame_boundary t s')
              then DenyThrottle else Allow))"
    if "enabled (config s') \<Longrightarrow> map_of (lastItemTick s') uid = None" for s'
  proof (cases "enabled (config s') \<and> isItem")
    case True
    then show ?thesis using gate_absent [of s' uid t removed] that by simp
  next
    case False
    then show ?thesis by (auto simp: ItemActorTickHook_def)
  qed
  have d: "enabled (config (ActorDespawnHook uid s)) \<Longrightarrow>
             map_of (lastItemTick (ActorDespawnHook uid s)) uid = None"
    by (simp add: despawn_keeps despawn_absent)
  show ?thesis using g [of s] g [OF d]
    by (simp add: despawn_absent ActorRemoveHook_def despawn_keeps)
qed

lemma despawn_seen_facts:
  "lastItemTick (ActorDespawnHook 1 seen_at_5) = []
   \<and> totalDespawnCleaned (ActorDespawnHook 1 seen_at_5) = 1
   \<and> \<not> dynMaxPerTick (frame_boundary 5 (ActorDespawnHook 1 seen_at_5))
         \<le>s processedThisTick (frame_boundary 5 (ActorDespawnHook 1 seen_at_5))
   \<and> \<not> dynMaxPerTick (frame_boundary 5 quota10) \<le>s processedThisTick (frame_boundary 5 quota10)
   \<and> fst (ItemActorTickHook True 1 5 [] seen_at_5) = DenyCooldown"
  unfolding seen_at_5_def by code_simp

theorem absent_id_never_cooldown_witness:
  "map_of (lastItemTick quota10) 1 = None \<and> enabled (config quota10)
   \<and> fst (ItemActorTickHook True 1 5 [] quota10) = Allow
   \<and> enabled (config seen_at_5)
   \<and> fst (ItemActorTickHook True 1 5 [] seen_at_5) = DenyCooldown
   \<and> map_of (lastItemTick (ActorDespawnHook 1 seen_at_5)) 1 = None
   \<and> fst (ItemActorTickHook True 1 5 [] (ActorDespawnHook 1 seen_at_5)) = Allow"
proof -
  have a: "map_of (lastItemTick quota10) 1 = None" and e: "enabled (config quota10)"
    using quota10_fields by simp_all
  have e2: "enabled (config seen_at_5)" using seen_at_5_fields by simp
  have 1: "fst (ItemActorTickHook True 1 5 [] quota10) = Allow"
    using absent_id_never_cooldown [of quota10 1 True 5 "[]"] a e despawn_seen_facts by simp
  have 2: "map_of (lastItemTick (ActorDespawnHook 1 seen_at_5)) 1 = None
           \<and> fst (ItemActorTickHook True 1 5 [] (ActorDespawnHook 1 seen_at_5)) = Allow"
    using absent_id_never_cooldown [of seen_at_5 1 True 5 "[]"] e2 despawn_seen_facts by simp
  show ?thesis using a e e2 1 2 despawn_seen_facts by simp
qed

section \<open>The staleness sweep\<close>

lemma new_tick_sweeps:
  assumes "cleanupIntervalTicks (config s) \<le>s cleanupCounter s + 1"
  shows "lastItemTick (new_tick c s)
           = fst (sweep c (scast (maxExpiredAge (config s))) (lastItemTick s) (totalExpiredCleaned s))
       \<and> totalExpiredCleaned (new_tick c s)
           = snd (sweep c (scast (maxExpiredAge (config s))) (lastItemTick s) (totalExpiredCleaned s))
       \<and> cleanupCounter (new_tick c s) = 0"
  using assms by (simp add: new_tick_def Let_def split: prod.splits)

text \<open>
  Claim C5. After the sweep loop has run for \<open>currentTick\<close> and the threshold \<open>maxAge\<close>, no
  entry of the store has \<open>currentTick - lastTick > maxAge\<close>; every entry with
  \<open>currentTick - lastTick \<le> maxAge\<close>, the age \<open>maxAge\<close> itself included, is still there (the
  store is the old one filtered by that test); and the expired-cleaned counter has grown
  by the number of entries removed. The last part states the same for the hook's frame
  boundary when the cadence counter reaches \<open>cleanupIntervalTicks\<close>, where the threshold is
  \<open>maxExpiredAge\<close>. The subtraction is the unsigned one of the code.
\<close>

theorem sweep_expired:
  "(\<forall>p \<in> set (fst (sweep currentTick maxAge m n)). \<not> currentTick - snd p > maxAge)
   \<and> (\<forall>p \<in> set m. currentTick - snd p \<le> maxAge \<longrightarrow> p \<in> set (fst (sweep currentTick maxAge m n)))
   \<and> fst (sweep currentTick maxAge m n) = filter (\<lambda>p. currentTick - snd p \<le> maxAge) m
   \<and> snd (sweep currentTick maxAge m n)
       = n + of_nat (length m - length (fst (sweep currentTick maxAge m n)))
   \<and> (cleanupIntervalTicks (config s) \<le>s cleanupCounter s + 1 \<longrightarrow>
        lastItemTick (new_tick currentTick s)
          = filter (\<lambda>p. currentTick - snd p \<le> scast (maxExpiredAge (config s))) (lastItemTick s)
        \<and> totalExpiredCleaned (new_tick currentTick s)
          = totalExpiredCleaned s
            + of_nat (length (lastItemTick s) - length (lastItemTick (new_tick currentTick s))))"
proof -
  have f: "fst (sweep currentTick maxAge m n) = filter (\<lambda>p. currentTick - snd p \<le> maxAge) m"
    for maxAge m n
    by (simp add: sweep_filter)
  have l: "length (filter (\<lambda>p. maxAge < currentTick - snd p) m)
        = length m - length (filter (\<lambda>p. currentTick - snd p \<le> maxAge) m)" for maxAge m
    using length_filter_compl [of "\<lambda>p. currentTick - snd p \<le> maxAge" m]
    by (simp add: not_le)
  have c: "snd (sweep currentTick maxAge m n)
       = n + of_nat (length m - length (fst (sweep currentTick maxAge m n)))" for maxAge m n
    by (simp only: sweep_filter fst_conv snd_conv l)
  have a: "\<forall>p \<in> set (fst (sweep currentTick maxAge m n)). \<not> currentTick - snd p > maxAge"
    by (simp add: f not_less)
  have b: "\<forall>p \<in> set m. currentTick - snd p \<le> maxAge
             \<longrightarrow> p \<in> set (fst (sweep currentTick maxAge m n))"
    by (simp add: f)
  have d: "cleanupIntervalTicks (config s) \<le>s cleanupCounter s + 1 \<longrightarrow>
        lastItemTick (new_tick currentTick s)
          = filter (\<lambda>p. currentTick - snd p \<le> scast (maxExpiredAge (config s))) (lastItemTick s)
        \<and> totalExpiredCleaned (new_tick currentTick s)
          = totalExpiredCleaned s
            + of_nat (length (lastItemTick s) - length (lastItemTick (new_tick currentTick s)))"
  proof
    assume h: "cleanupIntervalTicks (config s) \<le>s cleanupCounter s + 1"
    note nt = new_tick_sweeps [OF h, of currentTick]
    show "lastItemTick (new_tick currentTick s)
          = filter (\<lambda>p. currentTick - snd p \<le> scast (maxExpiredAge (config s))) (lastItemTick s)
        \<and> totalExpiredCleaned (new_tick currentTick s)
          = totalExpiredCleaned s
            + of_nat (length (lastItemTick s) - length (lastItemTick (new_tick currentTick s)))"
      using nt f [of "scast (maxExpiredAge (config s))" "lastItemTick s" "totalExpiredCleaned s"]
        c [of "scast (maxExpiredAge (config s))" "lastItemTick s" "totalExpiredCleaned s"]
      by (simp only:)
  qed
  show ?thesis using a b f c d by blast
qed

theorem sweep_expired_witness:
  "fst (sweep 601 600 [(1, 0), (2, 1), (3, 601)] 0) = [(2, 1), (3, 601)]
   \<and> snd (sweep 601 600 [(1, 0), (2, 1), (3, 601)] 0) = 1
   \<and> cleanupIntervalTicks (config sweep_due) \<le>s cleanupCounter sweep_due + 1
   \<and> lastItemTick (new_tick 601 sweep_due) = [(2, 1), (3, 601)]
   \<and> totalExpiredCleaned (new_tick 601 sweep_due) = 1"
proof -
  note t = sweep_expired [of 601 600 "[(1, 0), (2, 1), (3, 601)]" 0 sweep_due]
  have h: "cleanupIntervalTicks (config sweep_due) \<le>s cleanupCounter sweep_due + 1"
    by (simp add: sweep_due_def init_state_def default_Config_def word_sle_eq)
  have 1: "fst (sweep 601 600 [(1, 0), (2, 1), (3, 601)] 0) = [(2, 1), (3, 601)]"
    using t by simp
  have 2: "snd (sweep 601 600 [(1, 0), (2, 1), (3, 601)] 0) = 1"
    using t by simp
  have 3: "lastItemTick (new_tick 601 sweep_due) = [(2, 1), (3, 601)]"
    using t h by (simp add: sweep_due_def init_state_def default_Config_def)
  have 4: "totalExpiredCleaned (new_tick 601 sweep_due) = 1"
    using t h 3 by (simp add: sweep_due_def init_state_def default_Config_def)
  show ?thesis by (intro conjI 1 2 h 3 4)
qed

section \<open>The feedback controller\<close>

text \<open>
  Claim C4. While the hook is disabled a call of the frame-end controller changes nothing.
  While it is enabled: if the elapsed time is above the target, the quota becomes
  \<open>max(8, quota - maxPerTickStep)\<close> and the cooldown \<open>min(10, cooldown + cooldownTicksStep)\<close>,
  so the quota is at least 8 and the cooldown at most 10 afterwards; otherwise the quota
  becomes \<open>min(200, quota + maxPerTickStep)\<close> and the cooldown
  \<open>max(1, cooldown - cooldownTicksStep)\<close>, so the quota is at most 200 and the cooldown at
  least 1. Nothing else changes. The sums and differences are those of the 32-bit \<open>int\<close>;
  where they fit that type they are the sums and differences of the integers.
\<close>

theorem controller_step:
  "(\<not> enabled (config s) \<longrightarrow> LevelTickHook elapsed s = s)
   \<and> (enabled (config s) \<and> sint (targetTickMs (config s)) < sint elapsed \<longrightarrow>
        LevelTickHook elapsed s
          = s\<lparr>dynMaxPerTick := std_max 8 (dynMaxPerTick s - maxPerTickStep (config s)),
               dynCooldownTicks := std_min 10 (dynCooldownTicks s + cooldownTicksStep (config s))\<rparr>
        \<and> 8 \<le> sint (dynMaxPerTick (LevelTickHook elapsed s))
        \<and> sint (dynCooldownTicks (LevelTickHook elapsed s)) \<le> 10
        \<and> (fits_int (sint (dynMaxPerTick s) - sint (maxPerTickStep (config s))) \<longrightarrow>
             sint (dynMaxPerTick (LevelTickHook elapsed s))
               = max 8 (sint (dynMaxPerTick s) - sint (maxPerTickStep (config s))))
        \<and> (fits_int (sint (dynCooldownTicks s) + sint (cooldownTicksStep (config s))) \<longrightarrow>
             sint (dynCooldownTicks (LevelTickHook elapsed s))
               = min 10 (sint (dynCooldownTicks s) + sint (cooldownTicksStep (config s)))))
   \<and> (enabled (config s) \<and> \<not> sint (targetTickMs (config s)) < sint elapsed \<longrightarrow>
        LevelTickHook elapsed s
          = s\<lparr>dynMaxPerTick := std_min 200 (dynMaxPerTick s + maxPerTickStep (config s)),
               dynCooldownTicks := std_max 1 (dynCooldownTicks s - cooldownTicksStep (config s))\<rparr>
        \<and> sint (dynMaxPerTick (LevelTickHook elapsed s)) \<le> 200
        \<and> 1 \<le> sint (dynCooldownTicks (LevelTickHook elapsed s))
        \<and> (fits_int (sint (dynMaxPerTick s) + sint (maxPerTickStep (config s))) \<longrightarrow>
             sint (dynMaxPerTick (LevelTickHook elapsed s))
               = min 200 (sint (dynMaxPerTick s) + sint (maxPerTickStep (config s))))
        \<and> (fits_int (sint (dynCooldownTicks s) - sint (cooldownTicksStep (config s))) \<longrightarrow>
             sint (dynCooldownTicks (LevelTickHook elapsed s))
               = max 1 (sint (dynCooldownTicks s) - sint (cooldownTicksStep (config s)))))"
proof (intro conjI impI)
  show "LevelTickHook elapsed s = s" if "\<not> enabled (config s)"
    using that by (simp add: LevelTickHook_def)
next
  assume h: "enabled (config s) \<and> sint (targetTickMs (config s)) < sint elapsed"
  show e: "LevelTickHook elapsed s
          = s\<lparr>dynMaxPerTick := std_max 8 (dynMaxPerTick s - maxPerTickStep (config s)),
               dynCooldownTicks := std_min 10 (dynCooldownTicks s + cooldownTicksStep (config s))\<rparr>"
    using h by (simp add: LevelTickHook_def scast_sless)
  show "8 \<le> sint (dynMaxPerTick (LevelTickHook elapsed s))"
    by (simp add: e std_max_sint)
  show "sint (dynCooldownTicks (LevelTickHook elapsed s)) \<le> 10"
    by (simp add: e std_min_sint)
  show "sint (dynMaxPerTick (LevelTickHook elapsed s))
               = max 8 (sint (dynMaxPerTick s) - sint (maxPerTickStep (config s)))"
    if "fits_int (sint (dynMaxPerTick s) - sint (maxPerTickStep (config s)))"
    using that by (simp add: e std_max_sint sint_sub_fits)
  show "sint (dynCooldownTicks (LevelTickHook elapsed s))
               = min 10 (sint (dynCooldownTicks s) + sint (cooldownTicksStep (config s)))"
    if "fits_int (sint (dynCooldownTicks s) + sint (cooldownTicksStep (config s)))"
    using that by (simp add: e std_min_sint sint_add_fits)
next
  assume h: "enabled (config s) \<and> \<not> sint (targetTickMs (config s)) < sint elapsed"
  show e: "LevelTickHook elapsed s
          = s\<lparr>dynMaxPerTick := std_min 200 (dynMaxPerTick s + maxPerTickStep (config s)),
               dynCooldownTicks := std_max 1 (dynCooldownTicks s - cooldownTicksStep (config s))\<rparr>"
    using h by (simp add: LevelTickHook_def scast_sless)
  show "sint (dynMaxPerTick (LevelTickHook elapsed s)) \<le> 200"
    by (simp add: e std_min_sint)
  show "1 \<le> sint (dynCooldownTicks (LevelTickHook elapsed s))"
    by (simp add: e std_max_sint)
  show "sint (dynMaxPerTick (LevelTickHook elapsed s))
               = min 200 (sint (dynMaxPerTick s) + sint (maxPerTickStep (config s)))"
    if "fits_int (sint (dynMaxPerTick s) + sint (maxPerTickStep (config s)))"
    using that by (simp add: e std_min_sint sint_add_fits)
  show "sint (dynCooldownTicks (LevelTickHook elapsed s))
               = max 1 (sint (dynCooldownTicks s) - sint (cooldownTicksStep (config s)))"
    if "fits_int (sint (dynCooldownTicks s) - sint (cooldownTicksStep (config s)))"
    using that by (simp add: e std_max_sint sint_sub_fits)
qed

lemma quota10_controller_facts:
  "enabled (config quota10) \<and> sint (targetTickMs (config quota10)) = 50
   \<and> sint (dynMaxPerTick quota10) = 10 \<and> sint (maxPerTickStep (config quota10)) = 1
   \<and> sint (dynCooldownTicks quota10) = 2 \<and> sint (cooldownTicksStep (config quota10)) = 1
   \<and> \<not> enabled (config (init_state\<lparr>config := default_Config\<lparr>enabled := False\<rparr>\<rparr>))"
  by code_simp

theorem controller_step_witness:
  "enabled (config quota10)
   \<and> sint (targetTickMs (config quota10)) < sint (51 :: 64 word)
   \<and> sint (dynMaxPerTick (LevelTickHook 51 quota10)) = 9
   \<and> sint (dynCooldownTicks (LevelTickHook 51 quota10)) = 3
   \<and> \<not> sint (targetTickMs (config quota10)) < sint (50 :: 64 word)
   \<and> sint (dynMaxPerTick (LevelTickHook 50 quota10)) = 11
   \<and> sint (dynCooldownTicks (LevelTickHook 50 quota10)) = 1
   \<and> LevelTickHook 51 (init_state\<lparr>config := default_Config\<lparr>enabled := False\<rparr>\<rparr>)
       = init_state\<lparr>config := default_Config\<lparr>enabled := False\<rparr>\<rparr>"
proof -
  note f = quota10_controller_facts
  have over: "enabled (config quota10) \<and> sint (targetTickMs (config quota10)) < sint (51 :: 64 word)"
    using f by simp
  have under: "enabled (config quota10)
               \<and> \<not> sint (targetTickMs (config quota10)) < sint (50 :: 64 word)"
    using f by simp
  have fit: "fits_int (sint (dynMaxPerTick quota10) - sint (maxPerTickStep (config quota10)))"
    "fits_int (sint (dynCooldownTicks quota10) + sint (cooldownTicksStep (config quota10)))"
    "fits_int (sint (dynMaxPerTick quota10) + sint (maxPerTickStep (config quota10)))"
    "fits_int (sint (dynCooldownTicks quota10) - sint (cooldownTicksStep (config quota10)))"
    using f by (simp_all add: fits_int_def)
  have "sint (dynMaxPerTick (LevelTickHook 51 quota10))
          = max 8 (sint (dynMaxPerTick quota10) - sint (maxPerTickStep (config quota10)))
        \<and> sint (dynCooldownTicks (LevelTickHook 51 quota10))
          = min 10 (sint (dynCooldownTicks quota10) + sint (cooldownTicksStep (config quota10)))"
    using controller_step [of quota10 51] over fit by blast
  then have 1: "sint (dynMaxPerTick (LevelTickHook 51 quota10)) = 9
           \<and> sint (dynCooldownTicks (LevelTickHook 51 quota10)) = 3"
    using f by simp
  have "sint (dynMaxPerTick (LevelTickHook 50 quota10))
          = min 200 (sint (dynMaxPerTick quota10) + sint (maxPerTickStep (config quota10)))
        \<and> sint (dynCooldownTicks (LevelTickHook 50 quota10))
          = max 1 (sint (dynCooldownTicks quota10) - sint (cooldownTicksStep (config quota10)))"
    using controller_step [of quota10 50] under fit by blast
  then have 2: "sint (dynMaxPerTick (LevelTickHook 50 quota10)) = 11
           \<and> sint (dynCooldownTicks (LevelTickHook 50 quota10)) = 1"
    using f by simp
  have 3: "LevelTickHook 51 (init_state\<lparr>config := default_Config\<lparr>enabled := False\<rparr>\<rparr>)
       = init_state\<lparr>config := default_Config\<lparr>enabled := False\<rparr>\<rparr>"
    using controller_step [of "init_state\<lparr>config := default_Config\<lparr>enabled := False\<rparr>\<rparr>" 51] f
    by blast
  show ?thesis using over under 1 2 3 by blast
qed

section \<open>The ranges of the controller state\<close>

lemma loadConfig_fields:
  "sint (cleanupIntervalTicks (snd (loadConfig l c)))
     = (if sint (cleanupIntervalTicks c) < 1 then 100 else sint (cleanupIntervalTicks c))
   \<and> sint (maxExpiredAge (snd (loadConfig l c)))
     = (if sint (maxExpiredAge c) < 1 then 600 else sint (maxExpiredAge c))
   \<and> initialMapReserve (snd (loadConfig l c))
     = (if initialMapReserve c = 0 then 500 else initialMapReserve c)
   \<and> sint (maxPerTickStep (snd (loadConfig l c)))
     = (if sint (maxPerTickStep c) < 1 then 1 else sint (maxPerTickStep c))
   \<and> sint (cooldownTicksStep (snd (loadConfig l c)))
     = (if sint (cooldownTicksStep c) < 1 then 1 else sint (cooldownTicksStep c))
   \<and> sint (targetTickMs (snd (loadConfig l c)))
     = (if sint (targetTickMs c) < 1 then 50 else sint (targetTickMs c))
   \<and> enabled (snd (loadConfig l c)) = enabled c \<and> debug (snd (loadConfig l c)) = debug c
   \<and> version (snd (loadConfig l c)) = version c
   \<and> fst (loadConfig l c) = l"
  by (simp add: loadConfig_def Let_def word_sless_alt)

text \<open>
  When \<open>load\<close> returns, it returns \<open>true\<close> and the variables are those of \<open>loaded_state\<close>;
  it returns unless \<open>reserve\<close> throws.
\<close>

lemma load_returns:
  "load reserve_throws l c init_state
     = (if reserve_throws (scast (initialMapReserve (snd (loadConfig l c)))) then Inl ReserveFailed
        else Inr (True, loaded_state l c))"
  by (simp add: load_def loaded_state_def Let_def)

lemma enable_dyn_ok:
  assumes "steps_ok (config s)"
  shows "config (enable s) = config s \<and> dyn_ok (enable s)"
proof -
  have q: "sint (maxPerTickStep (config s) * 10) = sint (maxPerTickStep (config s)) * 10"
    using assms
    by (intro sint_mult_fits [where b = 10, simplified]) (simp add: steps_ok_def fits_int_def)
  have c: "sint (cooldownTicksStep (config s) * 2) = sint (cooldownTicksStep (config s)) * 2"
    using assms
    by (intro sint_mult_fits [where b = 2, simplified]) (simp add: steps_ok_def fits_int_def)
  show ?thesis using assms q c
    by (simp add: enable_def startDebugTask_def Let_def dyn_ok_def steps_ok_def)
qed

lemma level_dyn_ok:
  assumes "steps_ok (config s)" "dyn_ok s"
  shows "config (LevelTickHook e s) = config s \<and> dyn_ok (LevelTickHook e s)"
proof -
  let ?q = "dynMaxPerTick s" and ?c = "dynCooldownTicks s"
  let ?qs = "maxPerTickStep (config s)" and ?cs = "cooldownTicksStep (config s)"
  have 1: "sint (?q - ?qs) = sint ?q - sint ?qs"
    using assms by (intro sint_sub_fits) (simp add: steps_ok_def dyn_ok_def fits_int_def)
  have 2: "sint (?q + ?qs) = sint ?q + sint ?qs"
    using assms by (intro sint_add_fits) (simp add: steps_ok_def dyn_ok_def fits_int_def)
  have 3: "sint (?c - ?cs) = sint ?c - sint ?cs"
    using assms by (intro sint_sub_fits) (simp add: steps_ok_def dyn_ok_def fits_int_def)
  have 4: "sint (?c + ?cs) = sint ?c + sint ?cs"
    using assms by (intro sint_add_fits) (simp add: steps_ok_def dyn_ok_def fits_int_def)
  show ?thesis using assms 1 2 3 4
    by (auto simp: LevelTickHook_def dyn_ok_def steps_ok_def std_max_sint std_min_sint)
qed

lemma step_dyn_ok:
  assumes "steps_ok (config s)" "dyn_ok s"
  shows "config (step s ev) = config s \<and> dyn_ok (step s ev)"
proof (cases ev)
  case Enable
  then show ?thesis using enable_dyn_ok [OF assms(1)] by simp
next
  case Disable
  then show ?thesis using assms(2) by (simp add: disable_preserves dyn_ok_def)
next
  case (ItemTick i u t rs)
  then show ?thesis using assms(2) by (simp add: gate_keeps dyn_ok_def)
next
  case (LevelTick e)
  then show ?thesis using level_dyn_ok [OF assms] by simp
next
  case (Despawn u)
  then show ?thesis using assms(2) by (simp add: despawn_keeps dyn_ok_def)
next
  case (Remove u)
  then show ?thesis using assms(2) by (simp add: remove_keeps dyn_ok_def)
qed

lemma run_dyn_ok:
  "steps_ok (config s) \<Longrightarrow> dyn_ok s \<Longrightarrow> config (run s evs) = config s \<and> dyn_ok (run s evs)"
proof (induction evs arbitrary: s)
  case Nil
  then show ?case by (simp add: run_def)
next
  case (Cons ev evs)
  note a = step_dyn_ok [OF Cons.prems, of ev]
  have "config (run (step s ev) evs) = config (step s ev) \<and> dyn_ok (run (step s ev) evs)"
    using a Cons.prems by (intro Cons.IH) simp_all
  then show ?case using a by (simp add: run_def)
qed

text \<open>
  Claim C6, as amended. Load any configuration whose \<open>maxPerTickStep\<close> is at most 20 and
  whose \<open>cooldownTicksStep\<close> is at most 5 (values below 1 are replaced by 1 at load time).
  Then after any sequence of enable, disable, hook calls, frame-end controller calls and
  actor removals, \<open>dynMaxPerTick\<close> lies in [8, 200] and \<open>dynCooldownTicks\<close> in [1, 10].
\<close>

theorem controller_range:
  assumes "sint (maxPerTickStep c) \<le> 20" and "sint (cooldownTicksStep c) \<le> 5"
  shows "8 \<le> sint (dynMaxPerTick (run (loaded_state loaded c) evs))
     \<and> sint (dynMaxPerTick (run (loaded_state loaded c) evs)) \<le> 200
     \<and> 1 \<le> sint (dynCooldownTicks (run (loaded_state loaded c) evs))
     \<and> sint (dynCooldownTicks (run (loaded_state loaded c) evs)) \<le> 10"
proof -
  have s: "steps_ok (config (loaded_state loaded c))"
    using assms by (simp add: loaded_state_def steps_ok_def loadConfig_fields)
  have d: "dyn_ok (loaded_state loaded c)"
    by (simp add: loaded_state_def init_state_def dyn_ok_def)
  from run_dyn_ok [OF s d, of evs] show ?thesis by (simp add: dyn_ok_def)
qed

theorem controller_range_witness:
  "sint (maxPerTickStep (default_Config\<lparr>maxPerTickStep := 20, cooldownTicksStep := 5\<rparr>)) \<le> 20
   \<and> sint (cooldownTicksStep (default_Config\<lparr>maxPerTickStep := 20, cooldownTicksStep := 5\<rparr>)) \<le> 5
   \<and> 8 \<le> sint (dynMaxPerTick (run (loaded_state True
              (default_Config\<lparr>maxPerTickStep := 20, cooldownTicksStep := 5\<rparr>))
              [Enable, LevelTick 51, ItemTick True 1 5 [1], LevelTick 10]))
   \<and> sint (dynMaxPerTick (run (loaded_state True
              (default_Config\<lparr>maxPerTickStep := 20, cooldownTicksStep := 5\<rparr>))
              [Enable, LevelTick 51, ItemTick True 1 5 [1], LevelTick 10])) \<le> 200
   \<and> 1 \<le> sint (dynCooldownTicks (run (loaded_state True
              (default_Config\<lparr>maxPerTickStep := 20, cooldownTicksStep := 5\<rparr>))
              [Enable, LevelTick 51, ItemTick True 1 5 [1], LevelTick 10]))
   \<and> sint (dynCooldownTicks (run (loaded_state True
              (default_Config\<lparr>maxPerTickStep := 20, cooldownTicksStep := 5\<rparr>))
              [Enable, LevelTick 51, ItemTick True 1 5 [1], LevelTick 10])) \<le> 10"
proof -
  have a: "sint (maxPerTickStep (default_Config\<lparr>maxPerTickStep := 20, cooldownTicksStep := 5\<rparr>))
             \<le> 20"
    by simp
  have b: "sint (cooldownTicksStep (default_Config\<lparr>maxPerTickStep := 20, cooldownTicksStep := 5\<rparr>))
             \<le> 5"
    by simp
  show ?thesis
    using a b controller_range [OF a b, of True "[Enable, LevelTick 51, ItemTick True 1 5 [1], LevelTick 10]"]
    by blast
qed

text \<open>
  The claim as it is written fails: with \<open>maxPerTickStep = 100\<close> loaded, \<open>enable\<close> sets the
  quota to 1000, and a frame-end call over budget brings it to 900, above 200.
\<close>

theorem controller_range_counterexample:
  "sint (dynMaxPerTick (run (loaded_state True (default_Config\<lparr>maxPerTickStep := 100\<rparr>))
           [Enable, LevelTick 51])) = 900
   \<and> \<not> sint (dynMaxPerTick (run (loaded_state True (default_Config\<lparr>maxPerTickStep := 100\<rparr>))
           [Enable, LevelTick 51])) \<le> 200"
  by code_simp

section \<open>Loading the configuration\<close>

text \<open>
  Claim C7. The guard of \<open>initialMapReserve\<close> tests \<open>== 0\<close> where the five other guards
  test \<open>< 1\<close>: a negative value read from the file stays as it is, so after \<open>loadConfig\<close>
  that field is not at least 1 and was not replaced by 500.
\<close>

theorem loadConfig_negative_reserve:
  "sint (initialMapReserve (snd (loadConfig True (default_Config\<lparr>initialMapReserve := - 1\<rparr>))))
     = - 1
   \<and> \<not> 1 \<le> sint (initialMapReserve
               (snd (loadConfig True (default_Config\<lparr>initialMapReserve := - 1\<rparr>))))"
  by (simp add: loadConfig_def default_Config_def Let_def word_sless_alt)

section \<open>Lifecycle: enable and disable\<close>

text \<open>
  Claim C8. Whatever the state before, \<open>disable\<close> empties the timestamp store and sets
  \<open>processedThisTick\<close>, \<open>lastTickId\<close>, the sweep cadence counter \<open>cleanupCounter\<close> and the five
  statistics counters to zero, and leaves the configuration as it was. \<open>enable\<close> sets the
  quota to \<open>maxPerTickStep * 10\<close> and the cooldown to \<open>cooldownTicksStep * 2\<close>, so \<open>disable\<close>
  followed by \<open>enable\<close> gives these two values whatever they were before.
\<close>

theorem disable_then_enable:
  "lastItemTick (disable s) = [] \<and> processedThisTick (disable s) = 0
   \<and> lastTickId (disable s) = 0 \<and> cleanupCounter (disable s) = 0
   \<and> totalProcessed (disable s) = 0 \<and> totalCooldownSkipped (disable s) = 0
   \<and> totalThrottleSkipped (disable s) = 0 \<and> totalDespawnCleaned (disable s) = 0
   \<and> totalExpiredCleaned (disable s) = 0
   \<and> config (disable s) = config s
   \<and> dynMaxPerTick (enable s) = maxPerTickStep (config s) * 10
   \<and> dynCooldownTicks (enable s) = cooldownTicksStep (config s) * 2
   \<and> dynMaxPerTick (enable (disable s)) = maxPerTickStep (config s) * 10
   \<and> dynCooldownTicks (enable (disable s)) = cooldownTicksStep (config s) * 2"
  by (simp add: enable_def disable_def resetStats_def stopDebugTask_def startDebugTask_def Let_def)

text \<open>
  Claim C10. \<open>disable\<close> does not touch \<open>dynMaxPerTick\<close> and \<open>dynCooldownTicks\<close>: they keep
  the values they had. What it resets is the rest of the transient state: the store, the
  frame state, the statistics counters and the flag of the reporting task.
\<close>

theorem disable_keeps_controller:
  "dynMaxPerTick (disable s) = dynMaxPerTick s
   \<and> dynCooldownTicks (disable s) = dynCooldownTicks s
   \<and> disable s = s\<lparr>debugTaskRunning := False, lastItemTick := [], processedThisTick := 0,
       lastTickId := 0, cleanupCounter := 0, totalProcessed := 0, totalCooldownSkipped := 0,
       totalThrottleSkipped := 0, totalDespawnCleaned := 0, totalExpiredCleaned := 0\<rparr>"
  by (simp add: disable_def resetStats_def stopDebugTask_def)

end
